theory Spec2Isabelle
  imports Complex_Main "HOL-Library.Word"
begin

section \<open>Data model of \<open>cli.c\<close>\<close>

type_synonym uint32_t = "32 word"
type_synonym uint64_t = "64 word"

text \<open>
  \<open>latency_t\<close> is declared in \<open>diskscan.h\<close>; \<open>print_latency\<close> reads three of its
  fields and stores and compares them with \<open>uint32_t\<close> locals, so they are taken as
  \<open>uint32_t\<close> (the spec calls them non-negative integers).
\<close>

record latency_t =
  latency_min_msec :: uint32_t
  latency_max_msec :: uint32_t
  latency_median_msec :: uint32_t

section \<open>The latency graph: \<open>print_latency\<close>\<close>

text \<open>The constants of lines 100-101.\<close>

definition height :: uint32_t where
  "height = 30"

definition min_val :: uint32_t where
  "min_val = 0"

text \<open>Lines 102-107: \<open>max_val\<close> starts at 1 and is raised by each bucket in turn.\<close>

definition max_val_step :: "uint32_t \<Rightarrow> latency_t \<Rightarrow> uint32_t" where
  "max_val_step max_val b =
     (if max_val < latency_max_msec b then latency_max_msec b else max_val)"

definition max_val_loop :: "latency_t list \<Rightarrow> uint32_t" where
  "max_val_loop latency_graph = foldl max_val_step 1 latency_graph"

text \<open>Lines 109-113: the unsigned 32-bit quotient, then the two-sided clamp.\<close>

definition height_interval_of :: "uint32_t \<Rightarrow> uint32_t" where
  "height_interval_of max_val =
     (let height_interval = (max_val - min_val + 1) div (height - 3)
      in if height_interval = 0 then 1
         else if height_interval > 10000 then 10000
         else height_interval)"

definition height_interval :: "latency_t list \<Rightarrow> uint32_t" where
  "height_interval latency_graph = height_interval_of (max_val_loop latency_graph)"

text \<open>
  Lines 123-134: the three row heights of one bucket and the bumps that follow, in the
  order of the source. The result is \<open>(max_height, med_height, min_height)\<close>.
\<close>

definition bump_max_med :: "uint32_t \<times> uint32_t \<times> uint32_t \<Rightarrow> uint32_t \<times> uint32_t \<times> uint32_t" where
  "bump_max_med h =
     (case h of (max_height, med_height, min_height) \<Rightarrow>
        if max_height = med_height then (max_height + 1, med_height, min_height)
        else (max_height, med_height, min_height))"

definition bump_med_min :: "uint32_t \<times> uint32_t \<times> uint32_t \<Rightarrow> uint32_t \<times> uint32_t \<times> uint32_t" where
  "bump_med_min h =
     (case h of (max_height, med_height, min_height) \<Rightarrow>
        if med_height = min_height then
          (let med_height' = med_height + 1
           in if max_height = med_height' then (max_height + 1, med_height', min_height)
              else (max_height, med_height', min_height))
        else (max_height, med_height, min_height))"

definition bucket_heights :: "uint32_t \<Rightarrow> latency_t \<Rightarrow> uint32_t \<times> uint32_t \<times> uint32_t" where
  "bucket_heights hi b =
     bump_med_min (bump_max_med
       (latency_max_msec b div hi + 1,
        latency_median_msec b div hi + 1,
        latency_min_msec b div hi + 1))"

text \<open>Lines 136-146: the character printed for one bucket on row \<open>j\<close>.\<close>

definition cell :: "uint32_t \<Rightarrow> uint32_t \<times> uint32_t \<times> uint32_t \<Rightarrow> char" where
  "cell j h =
     (case h of (max_height, med_height, min_height) \<Rightarrow>
        if max_height \<noteq> j \<and> med_height \<noteq> j \<and> min_height \<noteq> j then CHR '' ''
        else if max_height = j then CHR ''^''
        else if med_height = j then CHR ''*''
        else CHR ''_'')"

text \<open>
  \<open>printf("%5u | ", x)\<close>: the decimal digits of \<open>x\<close>, right-aligned in a field of at
  least five characters (a longer number is printed whole).
\<close>

fun dec_digits :: "nat \<Rightarrow> string" where
  "dec_digits n =
     (if n < 10 then [char_of (48 + n)]
      else dec_digits (n div 10) @ [char_of (48 + n mod 10)])"

declare dec_digits.simps [simp del]

definition printf_5u :: "uint32_t \<Rightarrow> string" where
  "printf_5u x = (let ds = dec_digits (unat x) in replicate (5 - length ds) CHR '' '' @ ds)"

text \<open>Lines 117-120: the label that starts row \<open>j\<close>.\<close>

definition row_label :: "uint32_t \<Rightarrow> uint32_t \<Rightarrow> string" where
  "row_label j hi =
     (if j mod 5 = 0 then printf_5u (j * hi) @ '' | ''
      else ''      | '')"

text \<open>Lines 117-148: one row, the label, one cell per bucket, a newline.\<close>

definition print_row :: "uint32_t \<Rightarrow> uint32_t \<Rightarrow> latency_t list \<Rightarrow> string" where
  "print_row j hi latency_graph =
     row_label j hi
     @ map (\<lambda>b. cell j (bucket_heights hi b)) latency_graph
     @ [CHR 0x0A]"

text \<open>Line 116: \<open>for (j = height; j > 0; j--)\<close>, the rows from the top one down to row 1.\<close>

primrec print_rows :: "nat \<Rightarrow> uint32_t \<Rightarrow> latency_t list \<Rightarrow> string" where
  "print_rows 0 hi latency_graph = []"
| "print_rows (Suc n) hi latency_graph =
     print_row (of_nat (Suc n)) hi latency_graph
     @ print_rows n hi latency_graph"

text \<open>The whole function: what it writes to standard output.\<close>

definition print_latency :: "latency_t list \<Rightarrow> string" where
  "print_latency latency_graph =
     print_rows (unat height) (height_interval latency_graph) latency_graph
     @ ''      +-'' @ map (\<lambda>b. CHR ''-'') latency_graph @ [CHR 0x0A]"

section \<open>The C library: \<open>strtol\<close> and \<open>atoll\<close>\<close>

text \<open>
  The two conversions are the C library's. They are written out here after the C
  standard (7.22.1.4): white space is skipped, an optional sign is read, with base 0 a
  leading \<open>0x\<close> or \<open>0X\<close> before a hexadecimal digit selects base 16 and any other
  leading \<open>0\<close> base 8, the longest run of digits of the base is converted, and the
  rest of the string is handed back. A value outside the range is replaced by the
  nearest bound and reported as a range error; with no digits at all the result is 0 and
  the whole string is handed back. The result is \<open>(value, range error, rest)\<close>.
\<close>

definition isspace :: "char \<Rightarrow> bool" where
  "isspace c = (c = CHR '' '' \<or> c = CHR 0x09 \<or> c = CHR 0x0A \<or> c = CHR 0x0B
     \<or> c = CHR 0x0C \<or> c = CHR 0x0D)"

definition digit_val :: "char \<Rightarrow> nat option" where
  "digit_val c =
     (let n = (of_char c :: nat)
      in if 48 \<le> n \<and> n \<le> 57 then Some (n - 48)
         else if 97 \<le> n \<and> n \<le> 122 then Some (n - 87)
         else if 65 \<le> n \<and> n \<le> 90 then Some (n - 55)
         else None)"

definition digit_in :: "nat \<Rightarrow> char \<Rightarrow> nat option" where
  "digit_in base c =
     (case digit_val c of
        Some d \<Rightarrow> if d < base then Some d else None
      | None \<Rightarrow> None)"

fun scan_digits :: "nat \<Rightarrow> nat \<Rightarrow> string \<Rightarrow> nat \<times> string" where
  "scan_digits base acc [] = (acc, [])"
| "scan_digits base acc (c # cs) =
     (case digit_in base c of
        Some d \<Rightarrow> scan_digits base (acc * base + d) cs
      | None \<Rightarrow> (acc, c # cs))"

definition read_sign :: "string \<Rightarrow> bool \<times> string" where
  "read_sign s =
     (case s of
        [] \<Rightarrow> (False, [])
      | c # cs \<Rightarrow>
          if c = CHR ''-'' then (True, cs)
          else if c = CHR ''+'' then (False, cs)
          else (False, c # cs))"

definition read_base :: "nat \<Rightarrow> string \<Rightarrow> nat \<times> string" where
  "read_base base s =
     (if base = 0 then
        (case s of
           c0 # x # h # cs \<Rightarrow>
             if c0 = CHR ''0'' \<and> (x = CHR ''x'' \<or> x = CHR ''X'') \<and> digit_in 16 h \<noteq> None
             then (16, h # cs)
             else if c0 = CHR ''0'' then (8, s) else (10, s)
         | c0 # cs \<Rightarrow> if c0 = CHR ''0'' then (8, s) else (10, s)
         | [] \<Rightarrow> (10, s))
      else (base, s))"

definition starts_with_digit :: "nat \<Rightarrow> string \<Rightarrow> bool" where
  "starts_with_digit base s = (case s of [] \<Rightarrow> False | c # cs \<Rightarrow> digit_in base c \<noteq> None)"

definition strto :: "int \<Rightarrow> int \<Rightarrow> nat \<Rightarrow> string \<Rightarrow> int \<times> bool \<times> string" where
  "strto lo hi base0 str =
     (case read_sign (dropWhile isspace str) of (neg, s1) \<Rightarrow>
      case read_base base0 s1 of (base, s2) \<Rightarrow>
        if \<not> starts_with_digit base s2 then (0, False, str)
        else
          (case scan_digits base 0 s2 of (n, rest) \<Rightarrow>
             let v = (if neg then - int n else int n)
             in if v > hi then (hi, True, rest)
                else if v < lo then (lo, True, rest)
                else (v, False, rest)))"

text \<open>\<open>long\<close> and \<open>long long\<close> are both 64 bits wide (the LP64 model of the systems the
  tool is built for).\<close>

definition LONG_MIN :: int where
  "LONG_MIN = - (2 ^ 63)"

definition LONG_MAX :: int where
  "LONG_MAX = 2 ^ 63 - 1"

definition strtol :: "string \<Rightarrow> nat \<Rightarrow> int \<times> bool \<times> string" where
  "strtol str base = strto LONG_MIN LONG_MAX base str"

definition atoll :: "string \<Rightarrow> int" where
  "atoll str = fst (strto LONG_MIN LONG_MAX 10 str)"

section \<open>Resolving the transfer size: \<open>str_to_scan_size\<close>\<close>

text \<open>Lines 186-195: the factor of a suffix, compared whole with \<open>strcmp\<close>.\<close>

definition suffix_factor :: "string \<Rightarrow> int option" where
  "suffix_factor endptr =
     (if endptr = ''b'' \<or> endptr = ''B'' then Some 1
      else if endptr = ''k'' \<or> endptr = ''K'' then Some 1024
      else if endptr = ''m'' \<or> endptr = ''M'' then Some (1024 * 1024)
      else None)"

text \<open>
  Line 197, \<open>val *= factor\<close> on a \<open>long\<close>: the product, kept to 64 bits in two's
  complement (C leaves the overflow undefined; the compiled multiplication wraps).
\<close>

definition long_mul :: "int \<Rightarrow> int \<Rightarrow> int" where
  "long_mul a b = sint (word_of_int (a * b) :: 64 word)"

text \<open>
  Lines 171-207. The result 0 is the failure value. \<open>(unsigned)val\<close> keeps the low 32
  bits of \<open>val\<close>.
\<close>

definition str_to_scan_size :: "string \<Rightarrow> uint32_t" where
  "str_to_scan_size str =
     (case strtol str 0 of (val, errno, endptr) \<Rightarrow>
        if errno \<or> val \<le> 0 then 0
        else
          (case (if endptr \<noteq> [] then
                   (case suffix_factor endptr of
                      None \<Rightarrow> None
                    | Some factor \<Rightarrow> Some (long_mul val factor))
                 else Some val) of
             None \<Rightarrow> 0
           | Some val' \<Rightarrow>
               let retval = (word_of_int val' :: uint32_t)
               in if retval > 32 * 1024 * 1024 then 0 else word_of_int val'))"

section \<open>Resolving the options: \<open>parse_args\<close>\<close>

datatype scan_mode = SCAN_MODE_UNKNOWN | SCAN_MODE_SEQ | SCAN_MODE_RANDOM

datatype disk_mount_e = DISK_NOT_MOUNTED | DISK_MOUNTED_RO | DISK_MOUNTED_RW

text \<open>Lines 41-53. A \<open>char *\<close> that may be \<open>NULL\<close> is an optional string.\<close>

record options_t =
  disk_path :: "string option"
  verbose :: int
  fix_flag :: int
  mode :: scan_mode
  scan_size :: uint32_t
  data_log_name :: "string option"
  data_log_raw_name :: "string option"
  allowed_mount :: disk_mount_e
  start_sector :: uint64_t
  end_sector :: uint64_t

text \<open>
  \<open>getopt_long\<close> is the C library's. \<open>parse_args\<close> is modelled over what its calls
  return, in order, until it returns -1: either 0, after storing the value of a
  \<open>--force-mounted\<close> or \<open>--force-mounted-rw\<close> entry into the static \<open>allowed_mount\<close>,
  or an option character together with \<open>optarg\<close> (\<open>?\<close> for an option it does not
  know); and over the arguments left at \<open>argv[optind]\<close> and after.
\<close>

datatype getopt_ret = Flag disk_mount_e | Opt char string

record parse_state =
  st_opts :: options_t
  unknown :: int
  static_allowed_mount :: disk_mount_e

text \<open>Lines 237-274: the \<open>switch\<close>. \<open>str_to_scan_mode\<close> is declared in \<open>diskscan.h\<close>
  and is a parameter here.\<close>

fun option_switch :: "(string \<Rightarrow> scan_mode) \<Rightarrow> parse_state \<Rightarrow> getopt_ret \<Rightarrow> parse_state" where
  "option_switch str_to_scan_mode st (Flag m) = st\<lparr>static_allowed_mount := m\<rparr>"
| "option_switch str_to_scan_mode st (Opt c optarg) =
     (if c = CHR 0x00 then st
      else if c = CHR ''v'' then st\<lparr>st_opts := (st_opts st)\<lparr>verbose := verbose (st_opts st) + 1\<rparr>\<rparr>
      else if c = CHR ''f'' then st\<lparr>st_opts := (st_opts st)\<lparr>fix_flag := 1\<rparr>\<rparr>
      else if c = CHR ''s'' then
        st\<lparr>st_opts := (st_opts st)\<lparr>mode :=
          (if str_to_scan_mode optarg = SCAN_MODE_UNKNOWN then SCAN_MODE_SEQ
           else str_to_scan_mode optarg)\<rparr>\<rparr>
      else if c = CHR ''e'' then st\<lparr>st_opts := (st_opts st)\<lparr>scan_size := str_to_scan_size optarg\<rparr>\<rparr>
      else if c = CHR ''o'' then st\<lparr>st_opts := (st_opts st)\<lparr>data_log_name := Some optarg\<rparr>\<rparr>
      else if c = CHR ''r'' then st\<lparr>st_opts := (st_opts st)\<lparr>data_log_raw_name := Some optarg\<rparr>\<rparr>
      else if c = CHR ''S'' then
        st\<lparr>st_opts := (st_opts st)\<lparr>start_sector := word_of_int (atoll optarg)\<rparr>\<rparr>
      else if c = CHR ''E'' then
        st\<lparr>st_opts := (st_opts st)\<lparr>end_sector := word_of_int (atoll optarg)\<rparr>\<rparr>
      else st\<lparr>unknown := 1\<rparr>)"

text \<open>\<open>usage\<close> prints the help text and returns 1.\<close>

definition usage :: int where
  "usage = 1"

text \<open>
  Lines 209-299. \<open>rest\<close> is \<open>argv[optind .. argc - 1]\<close>, so \<open>optind == argc\<close> is
  \<open>rest = []\<close> and \<open>optind < argc - 1\<close> is \<open>length rest > 1\<close>.
\<close>

definition parse_args ::
  "(string \<Rightarrow> scan_mode) \<Rightarrow> getopt_ret list \<Rightarrow> string list \<Rightarrow> options_t \<Rightarrow> int \<times> options_t" where
  "parse_args str_to_scan_mode rets rest opts0 =
     (let st = foldl (option_switch str_to_scan_mode)
                 \<lparr>st_opts = opts0\<lparr>scan_size := 64 * 1024\<rparr>, unknown = 0,
                  static_allowed_mount = DISK_NOT_MOUNTED\<rparr> rets
      in case rest of
           [] \<Rightarrow> (usage, st_opts st)
         | path # others \<Rightarrow>
             if others \<noteq> [] then (usage, st_opts st)
             else if unknown st \<noteq> 0 then (usage, st_opts st)
             else if scan_size (st_opts st) = 0 then (usage, st_opts st)
             else (0, (st_opts st)\<lparr>disk_path := Some path,
                        allowed_mount := static_allowed_mount st\<rparr>))"

section \<open>The run: \<open>diskscan_cli\<close>\<close>

text \<open>
  The functions of the scan engine are declared in \<open>diskscan.h\<close>. A run is modelled by
  the calls it makes to them, in order, and the engine by the values its calls return
  (0 for success).
\<close>

datatype call =
    PRINT_HEADER
  | SETUP_SIGNALS
  | DISK_OPEN "string option" int int disk_mount_e
  | DATA_LOG_RAW_START string
  | DATA_LOG_START string
  | DISK_SCAN scan_mode uint32_t uint64_t uint64_t
  | DATA_LOG_RAW_END
  | DATA_LOG_END
  | DISK_CLOSE

record engine =
  disk_open_ret :: int
  data_log_raw_start_ret :: int
  data_log_start_ret :: int
  disk_scan_ret :: int

text \<open>Lines 329-331: the zeroed options with the two defaults.\<close>

definition initial_opts :: options_t where
  "initial_opts =
     \<lparr>disk_path = None, verbose = 0, fix_flag = 0, mode = SCAN_MODE_SEQ, scan_size = 0,
      data_log_name = None, data_log_raw_name = None, allowed_mount = DISK_NOT_MOUNTED,
      start_sector = 0, end_sector = 0\<rparr>"

definition log_calls :: "string option \<Rightarrow> (string \<Rightarrow> call) \<Rightarrow> call list" where
  "log_calls name c = (case name of None \<Rightarrow> [] | Some n \<Rightarrow> [c n])"

text \<open>Lines 324-363. The result is the return value and the calls made.\<close>

definition diskscan_cli ::
  "(string \<Rightarrow> scan_mode) \<Rightarrow> engine \<Rightarrow> getopt_ret list \<Rightarrow> string list \<Rightarrow> int \<times> call list" where
  "diskscan_cli str_to_scan_mode eng rets rest =
     (case parse_args str_to_scan_mode rets rest initial_opts of (r, opts) \<Rightarrow>
        if r \<noteq> 0 then (1, [])
        else
          let t1 = [PRINT_HEADER, SETUP_SIGNALS,
                    DISK_OPEN (disk_path opts) (fix_flag opts) 70 (allowed_mount opts)]
          in if disk_open_ret eng \<noteq> 0 then (1, t1)
             else
               let t2 = t1 @ log_calls (data_log_raw_name opts) DATA_LOG_RAW_START;
                   t3 = t2 @ log_calls (data_log_name opts) DATA_LOG_START;
                   t4 = t3 @ [DISK_SCAN (mode opts) (scan_size opts)
                                (start_sector opts) (end_sector opts)];
                   ret = (if disk_scan_ret eng \<noteq> 0 then 1 else 0);
                   t5 = t4 @ log_calls (data_log_raw_name opts) (\<lambda>n. DATA_LOG_RAW_END);
                   t6 = t5 @ log_calls (data_log_name opts) (\<lambda>n. DATA_LOG_END)
               in (ret, t6 @ [DISK_CLOSE]))"

section \<open>The statements of the specification\<close>

text \<open>
  The renderer as the specification words it, on natural numbers: the largest
  \<open>latencyMaxMsec\<close> floored at 1, and the vertical scale as a rounded-up quotient
  clamped to \<open>[1, 10000]\<close>. \<open>floor_heightInterval\<close> is the same with the quotient
  rounded down.
\<close>

definition spec_maxVal :: "latency_t list \<Rightarrow> nat" where
  "spec_maxVal buckets = Max (insert 1 (set (map (\<lambda>b. unat (latency_max_msec b)) buckets)))"

definition spec_heightInterval :: "latency_t list \<Rightarrow> nat" where
  "spec_heightInterval buckets =
     min 10000 (max 1
       (nat \<lceil>(real (spec_maxVal buckets) - 0 + 1) / (real (unat height) - 3)\<rceil>))"

definition floor_heightInterval :: "latency_t list \<Rightarrow> nat" where
  "floor_heightInterval buckets =
     min 10000 (max 1 ((spec_maxVal buckets - 0 + 1) div (unat height - 3)))"

text \<open>The tie-break as the specification words it: three tests, each on the heights as
  they stand when it is reached.\<close>

definition spec_tie_break ::
  "uint32_t \<times> uint32_t \<times> uint32_t \<Rightarrow> uint32_t \<times> uint32_t \<times> uint32_t" where
  "spec_tie_break h =
     (case h of (maxHeight, medHeight, minHeight) \<Rightarrow>
        let maxHeight1 = (if maxHeight = medHeight then maxHeight + 1 else maxHeight);
            medHeight1 = (if medHeight = minHeight then medHeight + 1 else medHeight);
            maxHeight2 = (if medHeight = minHeight \<and> maxHeight1 = medHeight1
                          then maxHeight1 + 1 else maxHeight1)
        in (maxHeight2, medHeight1, minHeight))"

definition spec_heights :: "uint32_t \<Rightarrow> latency_t \<Rightarrow> uint32_t \<times> uint32_t \<times> uint32_t" where
  "spec_heights hi b =
     spec_tie_break (latency_max_msec b div hi + 1, latency_median_msec b div hi + 1,
       latency_min_msec b div hi + 1)"

text \<open>The mark of a cell as the specification words it: max before median before min.\<close>

definition spec_mark :: "uint32_t \<Rightarrow> uint32_t \<times> uint32_t \<times> uint32_t \<Rightarrow> char" where
  "spec_mark j h =
     (case h of (maxHeight, medHeight, minHeight) \<Rightarrow>
        if maxHeight = j then CHR ''^''
        else if medHeight = j then CHR ''*''
        else if minHeight = j then CHR ''_''
        else CHR '' '')"

text \<open>A bucket from its minimum, median and maximum.\<close>

definition bkt :: "uint32_t \<Rightarrow> uint32_t \<Rightarrow> uint32_t \<Rightarrow> latency_t" where
  "bkt mn md mx =
     \<lparr>latency_min_msec = mn, latency_max_msec = mx, latency_median_msec = md\<rparr>"

text \<open>Counting the calls of a run.\<close>

fun is_disk_open :: "call \<Rightarrow> bool" where
  "is_disk_open (DISK_OPEN p f r m) = True"
| "is_disk_open c = False"

fun is_raw_start :: "call \<Rightarrow> bool" where
  "is_raw_start (DATA_LOG_RAW_START n) = True"
| "is_raw_start c = False"

fun is_log_start :: "call \<Rightarrow> bool" where
  "is_log_start (DATA_LOG_START n) = True"
| "is_log_start c = False"

definition count_calls :: "(call \<Rightarrow> bool) \<Rightarrow> call list \<Rightarrow> nat" where
  "count_calls P t = length (filter P t)"

text \<open>A function of the engine succeeded in a run when it was called and returned 0.\<close>

definition open_succeeded :: "engine \<Rightarrow> call list \<Rightarrow> bool" where
  "open_succeeded eng t = (count_calls is_disk_open t = 1 \<and> disk_open_ret eng = 0)"

definition raw_start_succeeded :: "engine \<Rightarrow> call list \<Rightarrow> bool" where
  "raw_start_succeeded eng t =
     (count_calls is_raw_start t = 1 \<and> data_log_raw_start_ret eng = 0)"

definition log_start_succeeded :: "engine \<Rightarrow> call list \<Rightarrow> bool" where
  "log_start_succeeded eng t = (count_calls is_log_start t = 1 \<and> data_log_start_ret eng = 0)"

text \<open>The lifecycle invariant as the specification words it.\<close>

definition spec_lifecycle :: "engine \<Rightarrow> call list \<Rightarrow> bool" where
  "spec_lifecycle eng t =
     (count_list t DISK_CLOSE = (if open_succeeded eng t then 1 else 0)
      \<and> count_list t DATA_LOG_RAW_END = (if raw_start_succeeded eng t then 1 else 0)
      \<and> count_list t DATA_LOG_END = (if log_start_succeeded eng t then 1 else 0))"

text \<open>Concrete surroundings for the examples: a \<open>str_to_scan_mode\<close> that knows every
  token as sequential, an engine whose calls all succeed, and an engine whose raw log
  fails to start.\<close>

definition seq_mode :: "string \<Rightarrow> scan_mode" where
  "seq_mode s = SCAN_MODE_SEQ"

definition ok_engine :: engine where
  "ok_engine =
     \<lparr>disk_open_ret = 0, data_log_raw_start_ret = 0, data_log_start_ret = 0,
      disk_scan_ret = 0\<rparr>"

definition failing_raw_log :: engine where
  "failing_raw_log =
     \<lparr>disk_open_ret = 0, data_log_raw_start_ret = - 1, data_log_start_ret = 0,
      disk_scan_ret = 0\<rparr>"

text \<open>The state \<open>parse_args\<close> starts its loop in, and the option characters its
  \<open>switch\<close> has a case for.\<close>

definition parse_start :: "options_t \<Rightarrow> parse_state" where
  "parse_start opts0 =
     \<lparr>st_opts = opts0\<lparr>scan_size := 64 * 1024\<rparr>, unknown = 0,
      static_allowed_mount = DISK_NOT_MOUNTED\<rparr>"

definition known_option :: "char \<Rightarrow> bool" where
  "known_option c =
     (c \<in> set [CHR 0x00, CHR ''v'', CHR ''f'', CHR ''s'', CHR ''e'', CHR ''o'', CHR ''r'',
        CHR ''S'', CHR ''E''])"

text \<open>Decimal strings: a digit, the number a run of digits writes, and a string that
  starts (after white space and one sign) with a digit.\<close>

definition is_dec_digit :: "char \<Rightarrow> bool" where
  "is_dec_digit c = (48 \<le> (of_char c :: nat) \<and> (of_char c :: nat) \<le> 57)"

definition dec_value :: "string \<Rightarrow> nat" where
  "dec_value ds = foldl (\<lambda>a c. a * 10 + ((of_char c :: nat) - 48)) 0 ds"

definition numeric_start :: "string \<Rightarrow> bool" where
  "numeric_start s =
     (case snd (read_sign (dropWhile isspace s)) of
        [] \<Rightarrow> False
      | c # cs \<Rightarrow> is_dec_digit c)"

section \<open>The vertical scale\<close>

lemma max_val_step_unat: "unat (max_val_step m b) = max (unat m) (unat (latency_max_msec b))"
  by (simp add: max_val_step_def word_less_nat_alt max_def)

lemma Max_insert_insert:
  fixes a :: nat
  assumes "finite A"
  shows "Max (insert a (insert b A)) = Max (insert (max a b) A)"
proof (cases "A = {}")
  case True
  then show ?thesis by (simp add: max.commute)
next
  case False
  with assms show ?thesis by (simp add: max.assoc)
qed

lemma foldl_max_val_step:
  "unat (foldl max_val_step m g) =
     Max (insert (unat m) (set (map (\<lambda>b. unat (latency_max_msec b)) g)))"
proof (induction g arbitrary: m)
  case Nil
  show ?case by simp
next
  case (Cons b g)
  have "unat (foldl max_val_step m (b # g)) =
          Max (insert (max (unat m) (unat (latency_max_msec b)))
            (set (map (\<lambda>b. unat (latency_max_msec b)) g)))"
    by (simp add: Cons.IH max_val_step_unat del: Max_insert)
  also have "\<dots> = Max (insert (unat m) (insert (unat (latency_max_msec b))
            (set (map (\<lambda>b. unat (latency_max_msec b)) g))))"
    by (rule Max_insert_insert [symmetric]) simp
  finally show ?case by simp
qed

lemma unat_max_val_loop: "unat (max_val_loop g) = spec_maxVal g"
  by (simp add: max_val_loop_def spec_maxVal_def foldl_max_val_step)

lemma unat_height_interval_of:
  assumes "unat m + 1 < 2 ^ 32"
  shows "unat (height_interval_of m) = min 10000 (max 1 ((unat m + 1) div 27))"
proof -
  have s: "unat (m - min_val + 1) = unat m + 1"
    using assms by (simp add: min_val_def unat_word_ariths)
  have d: "unat ((m - min_val + 1) div (height - 3)) = (unat m + 1) div 27"
    by (simp add: unat_div s height_def)
  show ?thesis
    using d unfolding height_interval_of_def Let_def
    by (auto simp: word_less_nat_alt unat_eq_0[symmetric] simp del: unat_eq_0)
qed

lemma unat_height_interval:
  assumes "spec_maxVal g + 1 < 2 ^ 32"
  shows "unat (height_interval g) = min 10000 (max 1 ((spec_maxVal g + 1) div 27))"
  using assms unat_height_interval_of [of "max_val_loop g"]
  by (simp add: height_interval_def unat_max_val_loop)

lemma height_interval_range: "1 \<le> height_interval g \<and> height_interval g \<le> 10000"
  unfolding height_interval_def height_interval_of_def Let_def
  by (simp add: word_le_nat_alt word_less_nat_alt not_less) unat_arith

lemma height_interval_27: "height_interval [bkt 0 0 27] = 1"
  by (simp add: bkt_def height_interval_def height_interval_of_def max_val_loop_def
      max_val_step_def height_def min_val_def)

lemma spec_maxVal_27: "spec_maxVal [bkt 0 0 27] = 27"
  by (simp add: bkt_def spec_maxVal_def)

text \<open>
  Claim C2, as the code has it. The vertical scale is the quotient
  \<open>(maxVal - 0 + 1) / (height - 3)\<close> rounded down, not up, and then clamped to
  \<open>[1, 10000]\<close>, where \<open>maxVal\<close> is the largest \<open>latency_max_msec\<close> floored at 1 and
  \<open>height\<close> is 30; this holds whenever \<open>maxVal + 1\<close> fits 32 bits, that is, unless a
  bucket has the maximum \<open>2^32 - 1\<close>.
\<close>

theorem height_interval_floor:
  assumes "spec_maxVal g < 2 ^ 32 - 1"
  shows "unat (max_val_loop g) = spec_maxVal g
     \<and> unat (height_interval g) = floor_heightInterval g"
proof -
  from assms have "spec_maxVal g + 1 < 2 ^ 32" by simp
  then have "unat (height_interval g) = min 10000 (max 1 ((spec_maxVal g + 1) div 27))"
    by (rule unat_height_interval)
  then show ?thesis by (simp add: floor_heightInterval_def height_def unat_max_val_loop)
qed

theorem height_interval_floor_witness:
  "spec_maxVal [bkt 0 0 27] < 2 ^ 32 - 1
   \<and> unat (max_val_loop [bkt 0 0 27]) = 27
   \<and> unat (height_interval [bkt 0 0 27]) = floor_heightInterval [bkt 0 0 27]
   \<and> floor_heightInterval [bkt 0 0 27] = 1"
proof -
  have h: "spec_maxVal [bkt 0 0 27] < 2 ^ 32 - 1" by (simp add: spec_maxVal_27)
  from height_interval_floor [OF h] h show ?thesis
    by (simp add: height_interval_27 spec_maxVal_27)
qed

text \<open>With one bucket whose maximum is 27 the rounded-up quotient of 28 by 27 is 2; the
  code computes 1.\<close>

theorem height_interval_ceil_counterexample:
  "unat (height_interval [bkt 0 0 27]) = 1 \<and> spec_heightInterval [bkt 0 0 27] = 2"
  by (simp add: height_interval_27 spec_heightInterval_def spec_maxVal_27 height_def)

text \<open>At the largest 32-bit maximum the sum \<open>max_val - min_val + 1\<close> wraps to 0 and the
  scale is 1.\<close>

lemma height_interval_wraps:
  "height_interval [bkt 0 0 4294967295] = 1"
  by (simp add: bkt_def height_interval_def height_interval_of_def max_val_loop_def
      max_val_step_def height_def min_val_def)

section \<open>Row heights and marks\<close>

lemma bumps_eq_spec: "bump_med_min (bump_max_med h) = spec_tie_break h"
  by (cases h) (simp add: bump_med_min_def bump_max_med_def spec_tie_break_def Let_def)

lemma height_interval_zero: "height_interval [bkt 0 0 0] = 1"
  by (simp add: bkt_def height_interval_def height_interval_of_def max_val_loop_def
      max_val_step_def height_def min_val_def)

text \<open>
  Claim C3. For every bucket and every scale the three row heights are
  \<open>value / heightInterval + 1\<close> followed by exactly the cascading tie-break of the
  specification. A single bucket with minimum, median and maximum 0 gets the heights
  3, 2 and 1 (max, median, min), and the three lowest rows of the graph carry one mark
  each.
\<close>

theorem tie_break_cascade:
  "bucket_heights hi b = spec_heights hi b
   \<and> bucket_heights (height_interval [bkt 0 0 0]) (bkt 0 0 0) = (3, 2, 1)
   \<and> print_rows 3 (height_interval [bkt 0 0 0]) [bkt 0 0 0]
       = ''      | ^'' @ [CHR 0x0A] @ ''      | *'' @ [CHR 0x0A] @ ''      | _'' @ [CHR 0x0A]"
proof (intro conjI)
  show "bucket_heights hi b = spec_heights hi b"
    by (simp add: bucket_heights_def spec_heights_def bumps_eq_spec)
  show z: "bucket_heights (height_interval [bkt 0 0 0]) (bkt 0 0 0) = (3, 2, 1)"
    by (simp add: height_interval_zero bucket_heights_def bump_med_min_def bump_max_med_def
        bkt_def)
  have "print_rows (Suc (Suc (Suc 0))) 1 [bkt 0 0 0]
       = ''      | ^'' @ [CHR 0x0A] @ ''      | *'' @ [CHR 0x0A] @ ''      | _'' @ [CHR 0x0A]"
    using z by (simp add: height_interval_zero print_row_def row_label_def cell_def)
  then show "print_rows 3 (height_interval [bkt 0 0 0]) [bkt 0 0 0]
       = ''      | ^'' @ [CHR 0x0A] @ ''      | *'' @ [CHR 0x0A] @ ''      | _'' @ [CHR 0x0A]"
    by (simp add: height_interval_zero numeral_3_eq_3)
qed

lemma cell_eq_spec: "cell j h = spec_mark j h"
  by (cases h) (simp add: cell_def spec_mark_def)

lemma print_rows_concat:
  "print_rows n hi g = concat (map (\<lambda>k. print_row (of_nat k) hi g) (rev [1..<Suc n]))"
  by (induction n) simp_all

text \<open>
  Claim C4. On every row \<open>j\<close> the cell of a bucket is \<open>^\<close> when its tie-broken
  \<open>maxHeight\<close> is \<open>j\<close>, otherwise \<open>*\<close> when its \<open>medHeight\<close> is \<open>j\<close>, otherwise
  \<open>_\<close> when its \<open>minHeight\<close> is \<open>j\<close>, otherwise a blank; a row is its label, these
  cells in bucket order and a newline, and the graph is the rows 30 down to 1 followed
  by the base line.
\<close>

theorem mark_priority:
  "cell j (bucket_heights hi b) = spec_mark j (spec_heights hi b)
   \<and> print_row j hi g
       = row_label j hi @ map (\<lambda>b. spec_mark j (spec_heights hi b)) g @ [CHR 0x0A]
   \<and> print_latency g =
       concat (map (\<lambda>k. print_row (of_nat k) (height_interval g) g) (rev [1..<31]))
       @ ''      +-'' @ map (\<lambda>b. CHR ''-'') g @ [CHR 0x0A]"
  by (simp add: cell_eq_spec print_row_def print_latency_def print_rows_concat height_def
      bucket_heights_def spec_heights_def bumps_eq_spec)

lemma bump_bound:
  fixes mx md mn :: uint32_t
  assumes "mx \<le> 31" "md \<le> 31" "mn \<le> 31"
  shows "case bump_med_min (bump_max_med (mx, md, mn)) of
           (a, b, c) \<Rightarrow> a \<le> 33 \<and> b \<le> 33 \<and> c \<le> 33"
  using assms unfolding bump_med_min_def bump_max_med_def Let_def
  by (simp split: if_splits; unat_arith)

lemma scale_ratio:
  fixes M :: nat
  assumes "M \<le> 30 \<or> (188 \<le> M \<and> M \<le> 309999)"
  shows "M < 31 * min 10000 (max 1 ((M + 1) div 27))"
proof -
  define k where "k = (M + 1) div 27"
  have k: "27 * k \<le> M + 1" "M + 1 < 27 * k + 27"
    unfolding k_def
    by (simp_all add: div_mult_mod_eq [of "M+1" 27, symmetric] del: div_mult_mod_eq)
  have "M < 31 * min 10000 (max 1 k)"
  proof (cases "M \<le> 30")
    case True
    have "1 \<le> min 10000 (max 1 k)" by simp
    with True show ?thesis by linarith
  next
    case False
    with assms have M: "188 \<le> M" "M \<le> 309999" by auto
    from M(1) k(2) have "7 \<le> k" by presburger
    with M(2) k(2) show ?thesis by (simp add: min_def max_def)
  qed
  then show ?thesis by (simp add: k_def)
qed

lemma latency_max_le_maxVal:
  assumes "b \<in> set g"
  shows "unat (latency_max_msec b) \<le> spec_maxVal g"
  unfolding spec_maxVal_def using assms by (intro Max_ge) auto

lemma word_succ_le_31:
  fixes w :: uint32_t
  assumes "unat w \<le> 30"
  shows "w + 1 \<le> 31"
  using assms by unat_arith

lemma base_height_le:
  fixes v hi :: uint32_t
  assumes "unat v < 31 * unat hi"
  shows "v div hi + 1 \<le> 31"
proof -
  have "unat v div unat hi < 31"
    using assms by (simp add: less_mult_imp_div_less mult.commute)
  then have "unat (v div hi) \<le> 30" by (simp add: unat_div)
  then show ?thesis by (rule word_succ_le_31)
qed

text \<open>
  Claim C5, as the code has it. For every bucket sequence the vertical scale lies in
  \<open>[1, 10000]\<close>. A row height stays within \<open>height + 3\<close> after the bumps for every
  bucket with \<open>min \<le> median \<le> max\<close> when the largest maximum \<open>maxVal\<close> is at most 30,
  or at least 188 and at most 309999.
\<close>

theorem scale_invariant:
  "1 \<le> height_interval g \<and> height_interval g \<le> 10000
   \<and> (b \<in> set g
        \<and> latency_min_msec b \<le> latency_median_msec b
        \<and> latency_median_msec b \<le> latency_max_msec b
        \<and> (spec_maxVal g \<le> 30 \<or> (188 \<le> spec_maxVal g \<and> spec_maxVal g \<le> 309999))
      \<longrightarrow> (case bucket_heights (height_interval g) b of
             (max_height, med_height, min_height) \<Rightarrow>
               max_height \<le> height + 3 \<and> med_height \<le> height + 3
               \<and> min_height \<le> height + 3))"
proof (intro conjI impI)
  show "1 \<le> height_interval g" "height_interval g \<le> 10000"
    using height_interval_range by simp_all
next
  assume a: "b \<in> set g
        \<and> latency_min_msec b \<le> latency_median_msec b
        \<and> latency_median_msec b \<le> latency_max_msec b
        \<and> (spec_maxVal g \<le> 30 \<or> (188 \<le> spec_maxVal g \<and> spec_maxVal g \<le> 309999))"
  define M where "M = spec_maxVal g"
  define hi where "hi = height_interval g"
  from a have range: "M \<le> 30 \<or> (188 \<le> M \<and> M \<le> 309999)" by (simp add: M_def)
  then have "M + 1 < 2 ^ 32" by auto
  then have "unat hi = min 10000 (max 1 ((M + 1) div 27))"
    unfolding M_def hi_def by (rule unat_height_interval)
  with scale_ratio [OF range] have ratio: "M < 31 * unat hi" by simp
  from a have mx: "unat (latency_max_msec b) \<le> M"
    unfolding M_def by (simp add: latency_max_le_maxVal)
  from a have md: "unat (latency_median_msec b) \<le> unat (latency_max_msec b)"
    and mn: "unat (latency_min_msec b) \<le> unat (latency_median_msec b)"
    by (simp_all add: word_le_nat_alt)
  have b1: "latency_max_msec b div hi + 1 \<le> 31"
    using mx ratio by (intro base_height_le) linarith
  have b2: "latency_median_msec b div hi + 1 \<le> 31"
    using mx md ratio by (intro base_height_le) linarith
  have b3: "latency_min_msec b div hi + 1 \<le> 31"
    using mx md mn ratio by (intro base_height_le) linarith
  show "case bucket_heights (height_interval g) b of
             (max_height, med_height, min_height) \<Rightarrow>
               max_height \<le> height + 3 \<and> med_height \<le> height + 3
               \<and> min_height \<le> height + 3"
    using bump_bound [OF b1 b2 b3] by (simp add: bucket_heights_def hi_def height_def)
qed

theorem scale_invariant_witness:
  "bkt 200 200 200 \<in> set [bkt 200 200 200]
   \<and> latency_min_msec (bkt 200 200 200) \<le> latency_median_msec (bkt 200 200 200)
   \<and> latency_median_msec (bkt 200 200 200) \<le> latency_max_msec (bkt 200 200 200)
   \<and> 188 \<le> spec_maxVal [bkt 200 200 200] \<and> spec_maxVal [bkt 200 200 200] \<le> 309999
   \<and> (case bucket_heights (height_interval [bkt 200 200 200]) (bkt 200 200 200) of
        (max_height, med_height, min_height) \<Rightarrow>
          max_height \<le> height + 3 \<and> med_height \<le> height + 3 \<and> min_height \<le> height + 3)"
proof -
  have h: "bkt 200 200 200 \<in> set [bkt 200 200 200]
        \<and> latency_min_msec (bkt 200 200 200) \<le> latency_median_msec (bkt 200 200 200)
        \<and> latency_median_msec (bkt 200 200 200) \<le> latency_max_msec (bkt 200 200 200)
        \<and> (spec_maxVal [bkt 200 200 200] \<le> 30
           \<or> (188 \<le> spec_maxVal [bkt 200 200 200] \<and> spec_maxVal [bkt 200 200 200] \<le> 309999))"
    by (simp add: bkt_def spec_maxVal_def)
  have m: "188 \<le> spec_maxVal [bkt 200 200 200] \<and> spec_maxVal [bkt 200 200 200] \<le> 309999"
    by (simp add: bkt_def spec_maxVal_def)
  note scale_invariant [of "[bkt 200 200 200]" "bkt 200 200 200", THEN conjunct2,
      THEN conjunct2, THEN mp, OF h]
  with h m show ?thesis by blast
qed

text \<open>
  One bucket with minimum, median and maximum 52: the scale is 1 and the heights are
  55, 54 and 53, above \<open>height + 3 = 33\<close>. With a maximum of 1000000 the scale is held
  at 10000 and the maximum is on row 101; with a median above the maximum the median is
  on a row the scale was not chosen for.
\<close>

theorem scale_invariant_counterexample:
  "bucket_heights (height_interval [bkt 52 52 52]) (bkt 52 52 52) = (55, 54, 53)
   \<and> \<not> (55 :: uint32_t) \<le> height + 3
   \<and> bucket_heights (height_interval [bkt 0 0 1000000]) (bkt 0 0 1000000) = (101, 2, 1)
   \<and> \<not> (101 :: uint32_t) \<le> height + 3
   \<and> bucket_heights (height_interval [bkt 0 1000 0]) (bkt 0 1000 0) = (1, 1001, 1)
   \<and> \<not> (1001 :: uint32_t) \<le> height + 3"
  by (simp add: bkt_def height_interval_def height_interval_of_def max_val_loop_def
      max_val_step_def height_def min_val_def bucket_heights_def bump_med_min_def
      bump_max_med_def)

section \<open>The transfer size\<close>

lemma str_to_scan_size_le: "str_to_scan_size s \<le> 33554432"
  by (simp add: str_to_scan_size_def Let_def not_less split: prod.splits option.splits)

lemma scan_size_1000: "str_to_scan_size ''1000'' = 1000"
  by code_simp

lemma scan_size_128K: "str_to_scan_size ''128K'' = 131072"
  by code_simp

lemma scan_size_40M: "str_to_scan_size ''40M'' = 0"
  by code_simp

lemma scan_size_4097M: "str_to_scan_size ''4097M'' = 1048576"
  by code_simp

text \<open>
  What \<open>str_to_scan_size\<close> does with the outcome of \<open>strtol\<close>: a product in
  \<open>(0, 32 MiB]\<close> is returned as it is; a range error, a value that is not positive and
  a suffix that is not one of the six give 0.
\<close>

lemma long_mul_small:
  assumes "0 \<le> a * b" "a * b < 2 ^ 63"
  shows "long_mul a b = a * b"
proof -
  define x where "x = a * b"
  with assms have "0 \<le> x" "x < 2 ^ 63" by simp_all
  then have "sint (word_of_int x :: 64 word) = x"
    by (simp add: signed_of_int signed_take_bit_int_eq_self)
  then show ?thesis by (simp only: long_mul_def x_def)
qed

lemma suffix_factor_cases:
  assumes "suffix_factor sfx = Some f"
  shows "f = 1 \<or> f = 1024 \<or> f = 1048576"
  using assms by (auto simp: suffix_factor_def split: if_splits)

lemma uint32_of_small:
  assumes "0 \<le> x" "x \<le> 33554432"
  shows "uint (word_of_int x :: uint32_t) = x"
  using assms by (simp add: uint_word_of_int)

lemma str_to_scan_size_in_range:
  assumes "strtol str 0 = (n, False, sfx)"
    and "(if sfx = [] then Some 1 else suffix_factor sfx) = Some f"
    and "0 < n * f" "n * f \<le> 32 * 1024 * 1024"
  shows "uint (str_to_scan_size str) = n * f"
proof -
  have f: "f = 1 \<or> f = 1024 \<or> f = 1048576"
    using assms(2) suffix_factor_cases by (auto split: if_splits)
  with assms(3) have n: "0 < n" by auto
  have m: "long_mul n f = n * f"
    using assms(3,4) by (intro long_mul_small) simp_all
  have u: "uint (word_of_int (n * f) :: uint32_t) = n * f"
    using assms(3,4) by (intro uint32_of_small) simp_all
  then have le: "\<not> (word_of_int (n * f) :: uint32_t) > 33554432"
    using assms(4) by (simp add: word_less_def not_less)
  show ?thesis
  proof (cases "sfx = []")
    case True
    with assms(2) have "f = 1" by simp
    with True assms(1) n u le show ?thesis
      by (simp add: str_to_scan_size_def Let_def)
  next
    case False
    with assms(2) have "suffix_factor sfx = Some f" by simp
    with False assms(1) n u le m show ?thesis
      by (simp add: str_to_scan_size_def Let_def)
  qed
qed

lemma str_to_scan_size_not_positive:
  assumes "strtol str 0 = (n, e, sfx)" "e \<or> n \<le> 0"
  shows "str_to_scan_size str = 0"
  using assms by (auto simp: str_to_scan_size_def)

lemma str_to_scan_size_bad_suffix:
  assumes "strtol str 0 = (n, e, sfx)" "sfx \<noteq> []" "suffix_factor sfx = None"
  shows "str_to_scan_size str = 0"
  using assms by (simp add: str_to_scan_size_def)

text \<open>
  Claim C6 at the input \<open>4097M\<close>. \<open>strtol\<close> reads 4097 and leaves \<open>M\<close>, the product
  \<open>4097 * 1024 * 1024 = 2^32 + 2^20\<close> is far above 32 MiB, and the comparison of line
  201 sees only its low 32 bits: the size resolves to 1048576 instead of failing with 0.
\<close>

theorem size_cap_truncation:
  "strtol ''4097M'' 0 = (4097, False, ''M'')
   \<and> long_mul 4097 (1024 * 1024) = 2 ^ 32 + 2 ^ 20
   \<and> str_to_scan_size ''4097M'' = 1048576"
  by code_simp

section \<open>The options\<close>

lemma unknown_option_switch:
  "unknown (option_switch sm st r) =
     (case r of
        Flag m \<Rightarrow> unknown st
      | Opt c a \<Rightarrow> if known_option c then unknown st else 1)"
  by (cases r) (simp_all add: known_option_def)

lemma scan_size_option_switch:
  "scan_size (st_opts (option_switch sm st r)) =
     (case r of
        Flag m \<Rightarrow> scan_size (st_opts st)
      | Opt c a \<Rightarrow> if c = CHR ''e'' then str_to_scan_size a else scan_size (st_opts st))"
  by (cases r) simp_all

lemma option_switch_scan_size:
  assumes "scan_size (st_opts st) \<le> 33554432"
  shows "scan_size (st_opts (option_switch sm st r)) \<le> 33554432"
  using assms
  by (cases r) (simp_all add: scan_size_option_switch str_to_scan_size_le
      del: option_switch.simps)

lemma foldl_option_switch_scan_size:
  assumes "scan_size (st_opts st) \<le> 33554432"
  shows "scan_size (st_opts (foldl (option_switch sm) st rets)) \<le> 33554432"
  using assms
proof (induction rets arbitrary: st)
  case Nil
  then show ?case by simp
next
  case (Cons r rets)
  from Cons.prems have "scan_size (st_opts (option_switch sm st r)) \<le> 33554432"
    by (rule option_switch_scan_size)
  then show ?case by (simp only: foldl_Cons Cons.IH)
qed

text \<open>
  Claim C7, as the code has it. When \<open>parse_args\<close> returns 0 the resolved transfer size
  is positive and at most 32 MiB (that it is a multiple of 512 is not checked);
  when it returns anything else \<open>diskscan_cli\<close> returns 1 without a single call to the
  engine, so the device is neither opened nor scanned.
\<close>

theorem resolved_size:
  "(case parse_args sm rets rest initial_opts of
      (r, opts) \<Rightarrow>
        if r = 0 then 0 < scan_size opts \<and> scan_size opts \<le> 32 * 1024 * 1024
        else diskscan_cli sm eng rets rest = (1, []))"
proof -
  have "scan_size (st_opts (foldl (option_switch sm)
          \<lparr>st_opts = initial_opts\<lparr>scan_size := 64 * 1024\<rparr>, unknown = 0,
           static_allowed_mount = DISK_NOT_MOUNTED\<rparr> rets)) \<le> 33554432"
    by (rule foldl_option_switch_scan_size) simp
  then show ?thesis
    by (auto simp: parse_args_def diskscan_cli_def Let_def usage_def word_neq_0_conv
        simp del: option_switch.simps split: list.splits prod.splits)
qed

theorem resolved_size_witness:
  "fst (parse_args seq_mode [Opt CHR ''e'' ''128K''] [''/dev/sda''] initial_opts) = 0
   \<and> scan_size (snd (parse_args seq_mode [Opt CHR ''e'' ''128K''] [''/dev/sda''] initial_opts))
       = 131072
   \<and> 0 < scan_size (snd (parse_args seq_mode [Opt CHR ''e'' ''128K''] [''/dev/sda''] initial_opts))
   \<and> scan_size (snd (parse_args seq_mode [Opt CHR ''e'' ''128K''] [''/dev/sda''] initial_opts))
       \<le> 32 * 1024 * 1024
   \<and> fst (parse_args seq_mode [Opt CHR ''e'' ''40M''] [''/dev/sda''] initial_opts) = 1
   \<and> diskscan_cli seq_mode failing_raw_log [Opt CHR ''e'' ''40M''] [''/dev/sda''] = (1, [])"
  using resolved_size [where sm = seq_mode and rets = "[Opt CHR ''e'' ''128K'']"
      and rest = "[''/dev/sda'']"]
    resolved_size [where sm = seq_mode and rets = "[Opt CHR ''e'' ''40M'']"
      and rest = "[''/dev/sda'']" and eng = failing_raw_log]
  by (simp add: parse_args_def scan_size_128K scan_size_40M usage_def)

text \<open>\<open>-e 1000\<close> with one device path resolves: the size is 1000, which leaves 488 when
  divided by 512.\<close>

theorem resolved_size_counterexample:
  "fst (parse_args seq_mode [Opt CHR ''e'' ''1000''] [''/dev/sda''] initial_opts) = 0
   \<and> unat (scan_size
        (snd (parse_args seq_mode [Opt CHR ''e'' ''1000''] [''/dev/sda''] initial_opts)))
       mod 512 = 488"
  by (simp add: parse_args_def scan_size_1000)

section \<open>The sector options\<close>

lemma option_switch_verdict:
  assumes "unknown st = unknown st'" "scan_size (st_opts st) = scan_size (st_opts st')"
  shows "unknown (option_switch sm st r) = unknown (option_switch sm st' r)
     \<and> scan_size (st_opts (option_switch sm st r))
         = scan_size (st_opts (option_switch sm st' r))"
  using assms by (simp only: unknown_option_switch scan_size_option_switch)

lemma foldl_option_switch_verdict:
  assumes "unknown st = unknown st'" "scan_size (st_opts st) = scan_size (st_opts st')"
  shows "unknown (foldl (option_switch sm) st rets) = unknown (foldl (option_switch sm) st' rets)
     \<and> scan_size (st_opts (foldl (option_switch sm) st rets))
         = scan_size (st_opts (foldl (option_switch sm) st' rets))"
  using assms
proof (induction rets arbitrary: st st')
  case Nil
  then show ?case by simp
next
  case (Cons r rets)
  from option_switch_verdict [OF Cons.prems, of sm r]
  have "unknown (option_switch sm st r) = unknown (option_switch sm st' r)"
    and "scan_size (st_opts (option_switch sm st r))
           = scan_size (st_opts (option_switch sm st' r))"
    by blast+
  then show ?case
    using Cons.IH [of "option_switch sm st r" "option_switch sm st' r"]
    by (simp only: foldl_Cons)
qed

lemma sector_option_verdict:
  assumes "c = CHR ''S'' \<or> c = CHR ''E''"
  shows "unknown (option_switch sm st (Opt c s)) = unknown st
     \<and> scan_size (st_opts (option_switch sm st (Opt c s))) = scan_size (st_opts st)"
  using assms
  by (auto simp: unknown_option_switch scan_size_option_switch known_option_def
      simp del: option_switch.simps)

lemma fst_parse_args:
  "fst (parse_args sm rets rest opts0) =
     (let st = foldl (option_switch sm) (parse_start opts0) rets
      in if length rest = 1 \<and> unknown st = 0 \<and> scan_size (st_opts st) \<noteq> 0 then 0 else 1)"
proof (cases rest)
  case Nil
  then show ?thesis by (simp add: parse_args_def usage_def Let_def)
next
  case (Cons path others)
  then show ?thesis
    by (cases others) (simp_all add: parse_args_def parse_start_def usage_def Let_def)
qed

lemma sector_option_ignored:
  assumes "c = CHR ''S'' \<or> c = CHR ''E''"
  shows "fst (parse_args sm (rs1 @ Opt c s # rs2) rest opts0)
       = fst (parse_args sm (rs1 @ rs2) rest opts0)"
proof -
  let ?st = "foldl (option_switch sm) (parse_start opts0) rs1"
  from sector_option_verdict [OF assms, of sm ?st s]
  have u: "unknown (option_switch sm ?st (Opt c s)) = unknown ?st"
    and z: "scan_size (st_opts (option_switch sm ?st (Opt c s))) = scan_size (st_opts ?st)"
    by blast+
  have "unknown (foldl (option_switch sm) (option_switch sm ?st (Opt c s)) rs2)
          = unknown (foldl (option_switch sm) ?st rs2)
     \<and> scan_size (st_opts (foldl (option_switch sm) (option_switch sm ?st (Opt c s)) rs2))
         = scan_size (st_opts (foldl (option_switch sm) ?st rs2))"
    by (rule foldl_option_switch_verdict [OF u z])
  then show ?thesis by (simp add: fst_parse_args Let_def del: option_switch.simps)
qed

lemma digit_in_10:
  "digit_in 10 c = (if is_dec_digit c then Some ((of_char c :: nat) - 48) else None)"
  by (auto simp: digit_in_def digit_val_def is_dec_digit_def Let_def)

lemma scan_digits_dec:
  assumes "list_all is_dec_digit ds"
  shows "scan_digits 10 acc ds
       = (foldl (\<lambda>a c. a * 10 + ((of_char c :: nat) - 48)) acc ds, [])"
  using assms by (induction ds arbitrary: acc) (simp_all add: digit_in_10)

lemma atoll_non_numeric:
  assumes "\<not> numeric_start s"
  shows "atoll s = 0"
  using assms
  by (auto simp: atoll_def strto_def numeric_start_def read_base_def starts_with_digit_def
      digit_in_10 split: prod.splits list.splits)

lemma atoll_negative:
  assumes "ds \<noteq> []" "list_all is_dec_digit ds"
  shows "atoll (CHR ''-'' # ds) = - int (min (dec_value ds) (2 ^ 63))"
proof -
  from assms obtain d ds' where ds: "ds = d # ds'" "is_dec_digit d" by (cases ds) auto
  have "scan_digits 10 0 ds = (dec_value ds, [])"
    unfolding dec_value_def using assms(2) by (rule scan_digits_dec)
  then show ?thesis
    using ds(2)
    by (simp add: atoll_def strto_def isspace_def read_sign_def read_base_def
        starts_with_digit_def digit_in_10 ds(1) LONG_MIN_def LONG_MAX_def Let_def min_def)
qed

lemma unat_neg_sector:
  fixes m :: nat
  assumes "0 < m" "m \<le> 2 ^ 63"
  shows "unat (word_of_int (- int m) :: 64 word) = 2 ^ 64 - m"
proof -
  define w :: "64 word" where "w = word_of_int (- int m)"
  have "uint w = (- int m) mod 2 ^ LENGTH(64)"
    unfolding w_def by (rule uint_word_of_int)
  also have "\<dots> = 2 ^ 64 - int m"
    using assms by (simp add: zmod_zminus1_eq_if)
  finally have "int (unat w) = 18446744073709551616 - int m"
    by simp
  moreover from assms have "m \<le> 9223372036854775808" by simp
  ultimately have "unat w = 18446744073709551616 - m" by linarith
  then have "unat w = 2 ^ 64 - m" by simp
  then show ?thesis by (simp only: w_def)
qed

text \<open>
  Claim C10. The argument of \<open>-S\<close> or \<open>-E\<close> never makes \<open>parse_args\<close> fail: its
  return value is the same with the option taken out, and with only these two options
  and one device path it is 0, the sectors being what \<open>atoll\<close> returns, stored into
  the unsigned 64-bit fields. A string that does not start with a number gives sector 0,
  and a minus sign before decimal digits of value \<open>n > 0\<close> gives \<open>2^64 - n\<close> (with
  \<open>n\<close> cut at \<open>2^63\<close>, where \<open>atoll\<close> saturates).
\<close>

theorem sector_options:
  "fst (parse_args sm (rs1 @ Opt CHR ''S'' s # rs2) rest opts0)
     = fst (parse_args sm (rs1 @ rs2) rest opts0)
   \<and> fst (parse_args sm (rs1 @ Opt CHR ''E'' s # rs2) rest opts0)
     = fst (parse_args sm (rs1 @ rs2) rest opts0)
   \<and> fst (parse_args sm [Opt CHR ''S'' s, Opt CHR ''E'' s'] [path] opts0) = 0
   \<and> start_sector (snd (parse_args sm [Opt CHR ''S'' s, Opt CHR ''E'' s'] [path] opts0))
     = word_of_int (atoll s)
   \<and> end_sector (snd (parse_args sm [Opt CHR ''S'' s, Opt CHR ''E'' s'] [path] opts0))
     = word_of_int (atoll s')
   \<and> (\<not> numeric_start s \<longrightarrow> (word_of_int (atoll s) :: uint64_t) = 0)
   \<and> (ds \<noteq> [] \<and> list_all is_dec_digit ds \<and> 0 < dec_value ds \<longrightarrow>
        unat (word_of_int (atoll (CHR ''-'' # ds)) :: uint64_t)
          = 2 ^ 64 - min (dec_value ds) (2 ^ 63))"
proof (intro conjI impI)
  show "fst (parse_args sm (rs1 @ Opt CHR ''S'' s # rs2) rest opts0)
      = fst (parse_args sm (rs1 @ rs2) rest opts0)"
    by (rule sector_option_ignored) simp
  show "fst (parse_args sm (rs1 @ Opt CHR ''E'' s # rs2) rest opts0)
      = fst (parse_args sm (rs1 @ rs2) rest opts0)"
    by (rule sector_option_ignored) simp
  show "fst (parse_args sm [Opt CHR ''S'' s, Opt CHR ''E'' s'] [path] opts0) = 0"
    by (simp add: parse_args_def)
  show "start_sector (snd (parse_args sm [Opt CHR ''S'' s, Opt CHR ''E'' s'] [path] opts0))
      = word_of_int (atoll s)"
    by (simp add: parse_args_def)
  show "end_sector (snd (parse_args sm [Opt CHR ''S'' s, Opt CHR ''E'' s'] [path] opts0))
      = word_of_int (atoll s')"
    by (simp add: parse_args_def)
next
  assume "\<not> numeric_start s"
  then show "(word_of_int (atoll s) :: uint64_t) = 0"
    by (simp add: atoll_non_numeric)
next
  assume a: "ds \<noteq> [] \<and> list_all is_dec_digit ds \<and> 0 < dec_value ds"
  then have "atoll (CHR ''-'' # ds) = - int (min (dec_value ds) (2 ^ 63))"
    by (simp add: atoll_negative)
  moreover from a have "0 < min (dec_value ds) (2 ^ 63)"
    and "min (dec_value ds) (2 ^ 63) \<le> (2 ^ 63 :: nat)"
    by simp_all
  ultimately show "unat (word_of_int (atoll (CHR ''-'' # ds)) :: uint64_t)
      = 2 ^ 64 - min (dec_value ds) (2 ^ 63)"
    by (simp only: unat_neg_sector)
qed

theorem sector_options_witness:
  "\<not> numeric_start ''abc'' \<and> (word_of_int (atoll ''abc'') :: uint64_t) = 0
   \<and> ''5'' \<noteq> [] \<and> list_all is_dec_digit ''5'' \<and> 0 < dec_value ''5''
   \<and> unat (word_of_int (atoll ''-5'') :: uint64_t) = 18446744073709551611"
proof -
  have n: "\<not> numeric_start ''abc''"
    by (simp add: numeric_start_def isspace_def read_sign_def is_dec_digit_def)
  have d: "''5'' \<noteq> [] \<and> list_all is_dec_digit ''5'' \<and> 0 < dec_value ''5''"
    by (simp add: is_dec_digit_def dec_value_def)
  have v: "dec_value ''5'' = 5" by (simp add: dec_value_def)
  note tail = sector_options [where s = "''abc''" and ds = "''5''", THEN conjunct2,
      THEN conjunct2, THEN conjunct2, THEN conjunct2, THEN conjunct2]
  have z: "(word_of_int (atoll ''abc'') :: uint64_t) = 0"
    by (rule tail [THEN conjunct1, THEN mp, OF n])
  have w: "unat (word_of_int (atoll ''-5'') :: uint64_t)
      = 2 ^ 64 - min (dec_value ''5'') (2 ^ 63)"
    by (rule tail [THEN conjunct2, THEN mp, OF d])
  have "(2 :: nat) ^ 64 - min 5 (2 ^ 63) = 18446744073709551611" by simp
  with w have w': "unat (word_of_int (atoll ''-5'') :: uint64_t) = 18446744073709551611"
    by (simp only: v)
  from n z d w' show ?thesis by (intro conjI) (simp_all only: simp_thms)
qed

section \<open>The run\<close>

lemma run_failing_raw_log:
  "diskscan_cli seq_mode failing_raw_log [Opt CHR ''r'' ''raw.json''] [''/dev/sda'']
   = (0, [PRINT_HEADER, SETUP_SIGNALS, DISK_OPEN (Some ''/dev/sda'') 0 70 DISK_NOT_MOUNTED,
          DATA_LOG_RAW_START ''raw.json'', DISK_SCAN SCAN_MODE_SEQ 65536 0 0,
          DATA_LOG_RAW_END, DISK_CLOSE])"
  by (simp add: diskscan_cli_def parse_args_def initial_opts_def failing_raw_log_def
      log_calls_def)

text \<open>
  Claim C1, as the code has it. In every run \<open>disk_close\<close> is called once when
  \<open>disk_open\<close> was called and succeeded, and never otherwise; and the end function of
  each of the two logs is called exactly as often as its start function, which is once
  when the device opened and the log is configured and never otherwise, whatever the
  start function returned.
\<close>

theorem lifecycle:
  "(case diskscan_cli sm eng rets rest of
      (r, t) \<Rightarrow>
        count_list t DISK_CLOSE = (if open_succeeded eng t then 1 else 0)
        \<and> count_list t DATA_LOG_RAW_END = count_calls is_raw_start t
        \<and> count_calls is_raw_start t =
            (if open_succeeded eng t
                \<and> data_log_raw_name (snd (parse_args sm rets rest initial_opts)) \<noteq> None
             then 1 else 0)
        \<and> count_list t DATA_LOG_END = count_calls is_log_start t
        \<and> count_calls is_log_start t =
            (if open_succeeded eng t
                \<and> data_log_name (snd (parse_args sm rets rest initial_opts)) \<noteq> None
             then 1 else 0))"
  by (auto simp: diskscan_cli_def Let_def log_calls_def count_calls_def open_succeeded_def
      split: prod.splits option.splits)

text \<open>A raw log is configured and its start function fails: the scan runs all the same
  and \<open>data_log_raw_end\<close> is called once.\<close>

theorem lifecycle_counterexample:
  "\<not> spec_lifecycle failing_raw_log
       (snd (diskscan_cli seq_mode failing_raw_log [Opt CHR ''r'' ''raw.json'']
          [''/dev/sda'']))"
  unfolding run_failing_raw_log
  by (simp add: spec_lifecycle_def raw_start_succeeded_def failing_raw_log_def)

text \<open>
  What \<open>diskscan_cli\<close> returns: 0 when \<open>parse_args\<close> returns 0, the device opens and
  the scan succeeds, and 1 in every other case; with two or more device paths it returns
  1 and calls nothing. Failure of the options is here what \<open>parse_args\<close> itself
  reports.
\<close>

lemma diskscan_cli_return:
  "fst (diskscan_cli sm eng rets rest) =
     (if fst (parse_args sm rets rest initial_opts) = 0 \<and> disk_open_ret eng = 0
         \<and> disk_scan_ret eng = 0 then 0 else 1)
   \<and> diskscan_cli sm eng rets (path1 # path2 # paths) = (1, [])"
  by (auto simp: diskscan_cli_def Let_def parse_args_def usage_def
      split: prod.splits list.splits)

text \<open>
  Claim C8 at the input \<open>-e 4097M /dev/sda\<close>. The size asked for is above the cap of
  32 MiB, a configuration error for which the exit code must be 1 with no device opened.
  \<open>str_to_scan_size\<close> lets it through as 1048576, so \<open>parse_args\<close> returns 0, the
  device is opened and scanned with that size, and with an engine that succeeds the exit
  code is 0.
\<close>

theorem exit_code_size_cap:
  "fst (parse_args seq_mode [Opt CHR ''e'' ''4097M''] [''/dev/sda''] initial_opts) = 0
   \<and> diskscan_cli seq_mode ok_engine [Opt CHR ''e'' ''4097M''] [''/dev/sda'']
     = (0, [PRINT_HEADER, SETUP_SIGNALS,
            DISK_OPEN (Some ''/dev/sda'') 0 70 DISK_NOT_MOUNTED,
            DISK_SCAN SCAN_MODE_SEQ 1048576 0 0, DISK_CLOSE])"
  by (simp add: diskscan_cli_def parse_args_def initial_opts_def ok_engine_def log_calls_def
      scan_size_4097M)

end
